theory Spec2Isabelle
  imports Main "HOL-Library.Code_Target_Numeral"
begin

section \<open>Common vocabulary\<close>

text \<open>
  The strategies talk to collaborators that live outside the modelled
  code: the pool clients (\<^verbatim>\<open>IClient\<close>) and the listener
  (\<^verbatim>\<open>IStrategyListener\<close>); the donation strategy also owns a nested strategy
  (\<^verbatim>\<open>m_strategy\<close>) and a timer (\<^verbatim>\<open>m_timer\<close>). None of them is interpreted
  here. A method of the model takes the state of the strategy and returns the new
  state together with the list of calls it made on its collaborators, in program
  order. Log output is not a call and is left out.

  An \<^verbatim>\<open>IClient *\<close> is identified by what \<^verbatim>\<open>client->id()\<close> returns, a C++
  \<^verbatim>\<open>int\<close>. Jobs, results and JSON payloads are forwarded verbatim by the code, so
  they are carried as opaque numbers.
\<close>

type_synonym client = int

type_synonym job = nat

type_synonym payload = nat

datatype call =
    ClientConnect client
  | ClientDisconnect client
  | ClientTick client nat
  | ClientSubmit client payload
  | ClientSetPool client string nat bool
  | ClientSetQuiet client bool
  | ClientDeleteLater client
  | ListenerOnPause
  | ListenerOnActive client
  | ListenerOnJob client job payload
  | ListenerOnResultAccepted client payload
  | ListenerOnVerifyAlgorithm client nat
  | StrategyConnect
  | StrategyStop
  | StrategyTick nat
  | StrategySetAlgo nat
  | StrategySetProxy nat
  | StrategySubmit payload
  | TimerStart nat nat
  | TimerStop

subsection \<open>Conversions between \<^verbatim>\<open>int\<close> and \<^verbatim>\<open>size_t\<close>\<close>

text \<open>
  \<^verbatim>\<open>size_t\<close> is taken to be 64 bits wide, as \<^verbatim>\<open>uint64_t\<close> is, and \<^verbatim>\<open>int\<close>
  32 bits wide. Values of the unsigned types are natural numbers below \<open>2 ^ 64\<close>;
  the wrap-around of the casts and of the unsigned subtraction and increment is
  written out.
\<close>

definition size_t_of_int :: "int \<Rightarrow> nat" where
  "size_t_of_int i = nat (i mod 2 ^ 64)"

definition int_of_size_t :: "nat \<Rightarrow> int" where
  "int_of_size_t n = (let r = int n mod 2 ^ 32 in if r < 2 ^ 31 then r else r - 2 ^ 32)"

definition size_t_sub :: "nat \<Rightarrow> nat \<Rightarrow> nat" where
  "size_t_sub a b = nat ((int a - int b) mod 2 ^ 64)"

definition size_t_inc :: "nat \<Rightarrow> nat" where
  "size_t_inc a = (a + 1) mod 2 ^ 64"

section \<open>FailoverStrategy\<close>

text \<open>
  The fields of \<^verbatim>\<open>FailoverStrategy\<close> that its methods read or write.
  \<^verbatim>\<open>m_pools\<close> is the vector of clients, each given by its id.
  (\<^verbatim>\<open>m_quiet\<close> and \<^verbatim>\<open>m_retryPause\<close> are only handed to the clients on
  creation and \<^verbatim>\<open>m_listener\<close> is the receiver of the \<open>Listener\<close> calls.)
\<close>

record failover =
  m_retries :: int
  m_pools :: "client list"
  m_index :: nat
  m_active :: int
  m_minAcceptableIndex :: nat
  m_pendingConnect :: bool
  m_pendingIndex :: nat

text \<open>
  \<^verbatim>\<open>add\<close>: the new client gets the current size of the vector as its id
  (\<^verbatim>\<open>static_cast<int>(m_pools.size())\<close>) and is appended.
\<close>

definition add :: "failover \<Rightarrow> failover" where
  "add s = s\<lparr>m_pools := m_pools s @ [int_of_size_t (length (m_pools s))]\<rparr>"

text \<open>
  Modelled from the spec: the default member initialisers of the class are in
  \<^verbatim>\<open>FailoverStrategy.h\<close>, which is not among the sources. The spec has the cascade
  begin at \<open>m_index = 0\<close> with \<open>m_active = -1\<close> (no client authorised); no connect
  is pending and no client id is refused. The constructor then adds one client per
  pool.
\<close>

definition FailoverStrategy_empty :: "int \<Rightarrow> failover" where
  "FailoverStrategy_empty retries =
     \<lparr>m_retries = retries, m_pools = [], m_index = 0, m_active = - 1,
      m_minAcceptableIndex = 0, m_pendingConnect = False, m_pendingIndex = 0\<rparr>"

definition FailoverStrategy_new :: "nat \<Rightarrow> int \<Rightarrow> failover" where
  "FailoverStrategy_new npools retries = (add ^^ npools) (FailoverStrategy_empty retries)"

text \<open>
  Modelled from the spec: \<^verbatim>\<open>isActive()\<close> is declared inline in
  \<^verbatim>\<open>FailoverStrategy.h\<close>; \<open>m_active\<close> is the id of the authorised client, or
  \<open>-1\<close> if there is none.
\<close>

definition isActive :: "failover \<Rightarrow> bool" where
  "isActive s = (0 \<le> m_active s)"

text \<open>
  Reading \<^verbatim>\<open>m_pools[i]\<close>: outside the vector the C++ behaviour is undefined, which
  the model reports as \<open>None\<close>.
\<close>

definition pool_at :: "client list \<Rightarrow> nat \<Rightarrow> client option" where
  "pool_at pools i = (if i < length pools then Some (pools ! i) else None)"

definition connect :: "failover \<Rightarrow> (failover \<times> call list) option" where
  "connect s =
     (case pool_at (m_pools s) (m_index s) of
        None \<Rightarrow> None
      | Some p \<Rightarrow> Some (s, [ClientConnect p]))"

definition stop :: "failover \<Rightarrow> failover \<times> call list" where
  "stop s =
     (s\<lparr>m_index := 0, m_active := - 1\<rparr>,
      map ClientDisconnect (m_pools s) @ [ListenerOnPause])"

definition connectNext :: "failover \<Rightarrow> failover \<times> call list" where
  "connectNext s =
     (if \<not> m_pendingConnect s \<or> m_pendingIndex s \<ge> length (m_pools s) then (s, [])
      else (s\<lparr>m_pendingConnect := False, m_index := m_pendingIndex s\<rparr>,
            [ClientConnect (m_pools s ! m_pendingIndex s)]))"

definition tick :: "failover \<Rightarrow> nat \<Rightarrow> failover \<times> call list" where
  "tick s now =
     (let (s', cs) = connectNext s
      in (s', map (\<lambda>c. ClientTick c now) (m_pools s) @ cs))"

text \<open>
  The loop \<^verbatim>\<open>for (size_t i = 0; i <= m_index; ++i) m_pools[i]->disconnect();\<close> of
  \<^verbatim>\<open>onClose\<close>, from counter \<open>i\<close> on. It leaves the vector exactly when
  \<open>m_index\<close> is not a position of it.
\<close>

function disconnect_loop :: "client list \<Rightarrow> nat \<Rightarrow> nat \<Rightarrow> call list option" where
  "disconnect_loop pools i m =
     (if i \<le> m then
        (case pool_at pools i of
           None \<Rightarrow> None
         | Some p \<Rightarrow>
             (case disconnect_loop pools (Suc i) m of
                None \<Rightarrow> None
              | Some cs \<Rightarrow> Some (ClientDisconnect p # cs)))
      else Some [])"
  by pat_completeness auto
termination
  by (relation "measure (\<lambda>(pools, i, m). Suc m - i)") auto

declare disconnect_loop.simps [simp del]

definition onClose :: "failover \<Rightarrow> client \<Rightarrow> int \<Rightarrow> (failover \<times> call list) option" where
  "onClose s client failures =
     (if failures = - 1 then Some (s, [])
      else
        let (s1, c1) =
              (if m_active s = client then (s\<lparr>m_active := - 1\<rparr>, [ListenerOnPause])
               else (s, []))
        in
          if m_retries s1 = 0 then
            (if size_t_of_int client < m_minAcceptableIndex s1 then
               Some (s1, c1 @ [ClientDisconnect client])
             else if m_index s1 = size_t_of_int client then
               (case disconnect_loop (m_pools s1) 0 (m_index s1) of
                  None \<Rightarrow> None
                | Some c2 \<Rightarrow>
                    let s2 =
                          (if size_t_sub (length (m_pools s1)) (m_index s1) > 1 then
                             s1\<lparr>m_pendingIndex := size_t_inc (m_index s1),
                                m_minAcceptableIndex := size_t_inc (m_index s1)\<rparr>
                           else
                             s1\<lparr>m_pendingIndex := 0, m_minAcceptableIndex := 0\<rparr>)
                    in Some (s2\<lparr>m_pendingConnect := True\<rparr>, c1 @ c2))
             else Some (s1, c1))
          else if m_index s1 = 0 \<and> failures < m_retries s1 then Some (s1, c1)
          else if m_index s1 = size_t_of_int client
                  \<and> size_t_sub (length (m_pools s1)) (m_index s1) > 1 then
            (case pool_at (m_pools s1) (size_t_inc (m_index s1)) of
               None \<Rightarrow> None
             | Some p \<Rightarrow> Some (s1\<lparr>m_index := size_t_inc (m_index s1)\<rparr>, c1 @ [ClientConnect p]))
          else Some (s1, c1))"

definition onJobReceived :: "failover \<Rightarrow> client \<Rightarrow> job \<Rightarrow> payload \<Rightarrow> failover \<times> call list" where
  "onJobReceived s client j params =
     (if m_active s = client then (s, [ListenerOnJob client j params]) else (s, []))"

text \<open>
  The loop of \<^verbatim>\<open>onLoginSuccess\<close> over all positions \<open>i\<close> of the vector, comparing
  \<^verbatim>\<open>active != static_cast<int>(i)\<close>.
\<close>

definition disconnect_others :: "client list \<Rightarrow> int \<Rightarrow> call list" where
  "disconnect_others pools active =
     map (\<lambda>i. ClientDisconnect (pools ! i))
       (filter (\<lambda>i. active \<noteq> int_of_size_t i) [0 ..< length pools])"

definition onLoginSuccess :: "failover \<Rightarrow> client \<Rightarrow> failover \<times> call list" where
  "onLoginSuccess s client =
     (if m_retries s = 0 \<and> size_t_of_int client < m_minAcceptableIndex s then
        (s, [ClientDisconnect client])
      else
        let s1 = s\<lparr>m_pendingConnect := False, m_minAcceptableIndex := 0\<rparr>;
            active = (if client = 0 \<or> \<not> isActive s1 then client else m_active s1);
            c1 = disconnect_others (m_pools s1) active
        in
          if 0 \<le> active \<and> active \<noteq> m_active s1 then
            (s1\<lparr>m_active := active, m_index := size_t_of_int active\<rparr>,
             c1 @ [ListenerOnActive client])
          else (s1, c1))"

subsection \<open>Sequences of calls on a FailoverStrategy\<close>

text \<open>
  The methods through which the owner (\<open>Connect\<close>, \<open>Stop\<close>, \<open>Tick\<close>) and the
  clients (\<open>Close\<close>, \<open>LoginSuccess\<close>) drive the strategy, and the run of a list
  of them from a state, collecting the calls made. A run is \<open>None\<close> when one of its
  steps indexes \<open>m_pools\<close> outside the vector.
\<close>

datatype fevent =
    Connect
  | Stop
  | Tick nat
  | Close client int
  | LoginSuccess client

fun fstep :: "failover \<Rightarrow> fevent \<Rightarrow> (failover \<times> call list) option" where
  "fstep s Connect = connect s"
| "fstep s Stop = Some (stop s)"
| "fstep s (Tick now) = Some (tick s now)"
| "fstep s (Close client failures) = onClose s client failures"
| "fstep s (LoginSuccess client) = Some (onLoginSuccess s client)"

fun frun :: "failover \<Rightarrow> fevent list \<Rightarrow> (failover \<times> call list) option" where
  "frun s [] = Some (s, [])"
| "frun s (e # es) =
     (case fstep s e of
        None \<Rightarrow> None
      | Some (s1, c1) \<Rightarrow>
          (case frun s1 es of
             None \<Rightarrow> None
           | Some (s2, c2) \<Rightarrow> Some (s2, c1 @ c2)))"

text \<open>
  The pool vectors that \<^verbatim>\<open>add\<close> builds: the client at position \<open>i\<close> has id
  \<open>i\<close>, and since ids are of type \<^verbatim>\<open>int\<close> there are at most \<open>2 ^ 31\<close> of them.
  Every client that reports to the strategy is one of these.
\<close>

definition valid_pools :: "client list \<Rightarrow> bool" where
  "valid_pools pools = (length pools \<le> 2 ^ 31 \<and> pools = map int [0 ..< length pools])"

text \<open>
  \<open>exhausts s e\<close>: the event \<open>e\<close> is a close that takes, in zero-retry mode, the
  branch of \<^verbatim>\<open>onClose\<close> commented ``All pools exhausted, wrap around to pool #0'':
  it is not ignored, it is on the current \<open>m_index\<close>, and
  \<^verbatim>\<open>(m_pools.size() - m_index) > 1\<close> is false.
\<close>

fun exhausts :: "failover \<Rightarrow> fevent \<Rightarrow> bool" where
  "exhausts s (Close client failures) =
     (failures \<noteq> - 1 \<and> m_retries s = 0
      \<and> \<not> size_t_of_int client < m_minAcceptableIndex s
      \<and> m_index s = size_t_of_int client
      \<and> \<not> 1 < size_t_sub (length (m_pools s)) (m_index s))"
| "exhausts s e = False"

text \<open>
  A failover cascade from \<open>s\<close>: a run of events none of which is a login success,
  none of which exhausts the pool list, and each of which is defined.
\<close>

fun is_login :: "fevent \<Rightarrow> bool" where
  "is_login (LoginSuccess client) = True"
| "is_login e = False"

fun cascade :: "failover \<Rightarrow> fevent list \<Rightarrow> bool" where
  "cascade s [] = True"
| "cascade s (e # es) =
     (\<not> is_login e \<and> \<not> exhausts s e \<and>
      (case fstep s e of None \<Rightarrow> False | Some (s1, c1) \<Rightarrow> cascade s1 es))"

section \<open>DonateStrategy\<close>

datatype State = STATE_NEW | STATE_IDLE | STATE_CONNECT | STATE_ACTIVE | STATE_WAIT

text \<open>
  Modelled from the spec: the enumeration of \<^verbatim>\<open>Pools::proxyDonate()\<close> is declared in
  \<^verbatim>\<open>Pools.h\<close>, which is not among the sources; the spec gives
  \<^verbatim>\<open>pools.proxyDonate\<close> as one of \<open>NONE\<close>, \<open>AUTO\<close>.
\<close>

datatype ProxyDonate = PROXY_DONATE_NONE | PROXY_DONATE_AUTO

text \<open>
  The fields of \<^verbatim>\<open>DonateStrategy\<close>. \<open>m_proxy\<close> is \<open>None\<close> for the null pointer.
  The algorithm, the proxy URL and the seed are opaque numbers.
\<close>

record donate =
  m_state :: State
  m_proxy :: "client option"
  m_now :: nat
  m_timestamp :: nat
  m_donateTime :: nat
  m_idleTime :: nat
  m_tls :: bool
  m_algorithm :: nat
  m_diff :: nat
  m_height :: nat
  m_seed :: nat

text \<open>
  What the methods read from outside the object: the configuration and the operator's
  network strategy behind \<^verbatim>\<open>m_controller\<close>, and the pseudo-random delay. The field
  \<open>random\<close> stands for \<^verbatim>\<open>random(base, min, max)\<close>, a floating-point computation on
  \<^verbatim>\<open>rand()\<close> that is not modelled; its bounds are passed in tenths. \<open>ndebug\<close> tells
  whether \<^verbatim>\<open>assert\<close> is compiled out.
\<close>

record environment =
  proxyDonate :: ProxyDonate
  network_isActive :: bool
  client_ext_connect :: bool
  client_ext_tls :: bool
  client_isTLS :: bool
  client_proxy_valid :: bool
  client_pool_host :: string
  client_ip :: string
  client_port :: nat
  random :: "nat \<Rightarrow> nat \<Rightarrow> nat \<Rightarrow> nat"
  ndebug :: bool

datatype failure = AssertionFailed | NullDereference

text \<open>
  Modelled from the spec: \<^verbatim>\<open>isActive()\<close> and \<^verbatim>\<open>state()\<close> are declared inline in
  \<^verbatim>\<open>DonateStrategy.h\<close>, which is not among the sources. \<^verbatim>\<open>state()\<close> reads
  \<open>m_state\<close>, and the strategy is active exactly in \<open>STATE_ACTIVE\<close>.
\<close>

definition donate_isActive :: "donate \<Rightarrow> bool" where
  "donate_isActive s = (m_state s = STATE_ACTIVE)"

text \<open>The proxy is \<^verbatim>\<open>new Client(-1, Platform::userAgent(), this)\<close>: its id is \<open>-1\<close>.\<close>

definition createProxy :: "environment \<Rightarrow> donate \<Rightarrow> client option \<times> donate \<times> call list" where
  "createProxy env s =
     (if proxyDonate env = PROXY_DONATE_NONE then (None, s, [])
      else if \<not> network_isActive env \<or> \<not> client_ext_connect env then (None, s, [])
      else
        (Some (- 1), s\<lparr>m_tls := client_ext_tls env\<rparr>,
         [ClientSetPool (- 1)
            (if client_proxy_valid env then client_pool_host env else client_ip env)
            (client_port env) (client_isTLS env),
          ClientSetQuiet (- 1) True]))"

definition donate_connect :: "environment \<Rightarrow> donate \<Rightarrow> donate \<times> call list" where
  "donate_connect env s =
     (let (proxy, s1, c1) = createProxy env s;
          s2 = s1\<lparr>m_proxy := proxy\<rparr>
      in case proxy of
           Some p \<Rightarrow> (s2, c1 @ [ClientConnect p])
         | None \<Rightarrow> (s2, c1 @ [StrategyConnect]))"

definition donate_submit :: "donate \<Rightarrow> payload \<Rightarrow> donate \<times> call list" where
  "donate_submit s result =
     (case m_proxy s of
        Some p \<Rightarrow> (s, [ClientSubmit p result])
      | None \<Rightarrow> (s, [StrategySubmit result]))"

definition donate_setAlgo :: "donate \<Rightarrow> nat \<Rightarrow> donate \<times> call list" where
  "donate_setAlgo s algo = (s\<lparr>m_algorithm := algo\<rparr>, [StrategySetAlgo algo])"

definition donate_setProxy :: "donate \<Rightarrow> nat \<Rightarrow> donate \<times> call list" where
  "donate_setProxy s proxy = (s, [StrategySetProxy proxy])"

text \<open>
  \<^verbatim>\<open>update(client, job)\<close>, given the algorithm, difficulty, height and seed of the job
  and the proxy URL of the client's pool.
\<close>

definition update :: "donate \<Rightarrow> nat \<Rightarrow> nat \<Rightarrow> nat \<Rightarrow> nat \<Rightarrow> nat \<Rightarrow> donate \<times> call list" where
  "update s algo proxy diff height seed =
     (let (s1, c1) = donate_setAlgo s algo;
          (s2, c2) = donate_setProxy s1 proxy
      in (s2\<lparr>m_diff := diff, m_height := height, m_seed := seed\<rparr>, c1 @ c2))"

definition donate_stop :: "donate \<Rightarrow> donate \<times> call list" where
  "donate_stop s = (s, [TimerStop, StrategyStop])"

text \<open>\<^verbatim>\<open>idle(min, max)\<close>, without the test-mode timings.\<close>

definition idle :: "environment \<Rightarrow> donate \<Rightarrow> nat \<Rightarrow> nat \<Rightarrow> donate \<times> call list" where
  "idle env s lo hi = (s, [TimerStart (random env (m_idleTime s) lo hi) 0])"

text \<open>
  \<^verbatim>\<open>setState\<close>. With assertions compiled in, a call that violates
  \<^verbatim>\<open>assert(m_state != state && state != STATE_NEW)\<close> aborts the program; without
  them the method goes on to its own test \<^verbatim>\<open>if (m_state == state) return;\<close>.
\<close>

definition setState :: "environment \<Rightarrow> donate \<Rightarrow> State \<Rightarrow> failure + donate \<times> call list" where
  "setState env s st =
     (if \<not> ndebug env \<and> \<not> (m_state s \<noteq> st \<and> st \<noteq> STATE_NEW) then Inl AssertionFailed
      else if m_state s = st then Inr (s, [])
      else
        let prev = m_state s;
            s1 = s\<lparr>m_state := st\<rparr>
        in case st of
             STATE_NEW \<Rightarrow> Inr (s1, [])
           | STATE_IDLE \<Rightarrow>
               (if prev = STATE_NEW then Inr (idle env s1 5 15)
                else if prev = STATE_CONNECT then Inr (s1, [TimerStart 20000 0])
                else
                  let c1 = StrategyStop
                             # (case m_proxy s1 of Some p \<Rightarrow> [ClientDeleteLater p] | None \<Rightarrow> []);
                      (s2, c2) = idle env (s1\<lparr>m_proxy := None\<rparr>) 8 12
                  in Inr (s2, c1 @ c2))
           | STATE_CONNECT \<Rightarrow> Inr (donate_connect env s1)
           | STATE_ACTIVE \<Rightarrow> Inr (s1, [TimerStart (m_donateTime s1) 0])
           | STATE_WAIT \<Rightarrow>
               Inr (s1\<lparr>m_timestamp := (m_now s1 + 3000) mod 2 ^ 64\<rparr>, [ListenerOnPause]))"

definition donate_tick :: "environment \<Rightarrow> donate \<Rightarrow> nat \<Rightarrow> failure + donate \<times> call list" where
  "donate_tick env s now =
     (let s1 = s\<lparr>m_now := now\<rparr>;
          c1 = StrategyTick now # (case m_proxy s1 of Some p \<Rightarrow> [ClientTick p now] | None \<Rightarrow> [])
      in if m_state s1 = STATE_WAIT \<and> now > m_timestamp s1 then
           (case setState env s1 STATE_IDLE of
              Inl f \<Rightarrow> Inl f
            | Inr (s2, c2) \<Rightarrow> Inr (s2, c1 @ c2))
         else Inr (s1, c1))"

definition onActive :: "environment \<Rightarrow> donate \<Rightarrow> client \<Rightarrow> failure + donate \<times> call list" where
  "onActive env s client =
     (if donate_isActive s then Inr (s, [])
      else
        case setState env s STATE_ACTIVE of
          Inl f \<Rightarrow> Inl f
        | Inr (s1, c1) \<Rightarrow> Inr (s1, c1 @ [ListenerOnActive client]))"

definition onPause :: "donate \<Rightarrow> donate \<times> call list" where
  "onPause s = (s, [])"

text \<open>
  \<^verbatim>\<open>onClose(IClient *, int failures)\<close> is the client-listener callback; the only client
  whose listener is the donation strategy is the proxy. With \<open>m_proxy\<close> null the call
  \<^verbatim>\<open>m_proxy->deleteLater()\<close> dereferences a null pointer.
\<close>

definition donate_onClose :: "environment \<Rightarrow> donate \<Rightarrow> client \<Rightarrow> int \<Rightarrow> failure + donate \<times> call list" where
  "donate_onClose env s client failures =
     (if failures = 2 \<and> proxyDonate env = PROXY_DONATE_AUTO then
        (case m_proxy s of
           None \<Rightarrow> Inl NullDereference
         | Some p \<Rightarrow> Inr (s\<lparr>m_proxy := None\<rparr>, [ClientDeleteLater p, StrategyConnect]))
      else Inr (s, []))"

definition donate_onLoginSuccess :: "environment \<Rightarrow> donate \<Rightarrow> client \<Rightarrow> failure + donate \<times> call list" where
  "donate_onLoginSuccess env s client =
     (if donate_isActive s then Inr (s, [])
      else
        case setState env s STATE_ACTIVE of
          Inl f \<Rightarrow> Inl f
        | Inr (s1, c1) \<Rightarrow> Inr (s1, c1 @ [ListenerOnActive client]))"

definition donate_onVerifyAlgorithm :: "donate \<Rightarrow> client \<Rightarrow> nat \<Rightarrow> donate \<times> call list" where
  "donate_onVerifyAlgorithm s client algorithm = (s, [ListenerOnVerifyAlgorithm client algorithm])"

definition onTimer :: "environment \<Rightarrow> donate \<Rightarrow> failure + donate \<times> call list" where
  "onTimer env s = setState env s (if donate_isActive s then STATE_WAIT else STATE_CONNECT)"

definition setJob :: "donate \<Rightarrow> client \<Rightarrow> job \<Rightarrow> payload \<Rightarrow> donate \<times> call list" where
  "setJob s client j params =
     (if donate_isActive s then (s, [ListenerOnJob client j params]) else (s, []))"

definition setResult :: "donate \<Rightarrow> client \<Rightarrow> payload \<Rightarrow> donate \<times> call list" where
  "setResult s client result = (s, [ListenerOnResultAccepted client result])"

text \<open>
  Modelled from the spec: the callbacks \<^verbatim>\<open>onJob(IStrategy *, ...)\<close> (from the nested
  strategy), \<^verbatim>\<open>onJobReceived(IClient *, ...)\<close> (from the proxy) and the two
  \<^verbatim>\<open>onResultAccepted\<close> are declared inline in \<^verbatim>\<open>DonateStrategy.h\<close>, which is not
  among the sources. Jobs from the donation side reach the listener through
  \<^verbatim>\<open>setJob\<close> and accepted results through \<^verbatim>\<open>setResult\<close>, the two private methods
  the source defines for them.
\<close>

definition onJob :: "donate \<Rightarrow> client \<Rightarrow> job \<Rightarrow> payload \<Rightarrow> donate \<times> call list" where
  "onJob s client j params = setJob s client j params"

definition donate_onJobReceived :: "donate \<Rightarrow> client \<Rightarrow> job \<Rightarrow> payload \<Rightarrow> donate \<times> call list" where
  "donate_onJobReceived s client j params = setJob s client j params"

definition donate_onResultAccepted :: "donate \<Rightarrow> client \<Rightarrow> payload \<Rightarrow> donate \<times> call list" where
  "donate_onResultAccepted s client result = setResult s client result"

text \<open>
  Modelled from the spec: the default member initialisers are in
  \<^verbatim>\<open>DonateStrategy.h\<close>. The object starts in \<open>STATE_NEW\<close> without a proxy; the
  constructor computes the two durations from the donate level (in
  \<^verbatim>\<open>uint64_t\<close> arithmetic) and ends with \<^verbatim>\<open>setState(STATE_IDLE)\<close>.
\<close>

definition DonateStrategy_new :: "environment \<Rightarrow> int \<Rightarrow> failure + donate \<times> call list" where
  "DonateStrategy_new env donateLevel =
     setState env
       \<lparr>m_state = STATE_NEW, m_proxy = None, m_now = 0, m_timestamp = 0,
        m_donateTime = (size_t_of_int donateLevel * 60 * 1000) mod 2 ^ 64,
        m_idleTime = (size_t_sub 100 (size_t_of_int donateLevel) * 60 * 1000) mod 2 ^ 64,
        m_tls = False, m_algorithm = 0, m_diff = 0, m_height = 0, m_seed = 0\<rparr>
       STATE_IDLE"

subsection \<open>Sequences of calls on a DonateStrategy\<close>

text \<open>
  Every method of the class that the source defines and that reads or writes the
  state or calls a collaborator, as an event. (\<^verbatim>\<open>onLogin\<close> and \<^verbatim>\<open>setParams\<close> only
  add members to the JSON document of a login request.)
\<close>

datatype devent =
    DSubmit payload
  | DConnect
  | DSetAlgo nat
  | DSetProxy nat
  | DUpdate nat nat nat nat nat
  | DStop
  | DTick nat
  | DOnActive client
  | DOnPause
  | DOnClose client int
  | DOnLoginSuccess client
  | DOnVerifyAlgorithm client nat
  | DOnTimer
  | DOnJob client job payload
  | DOnJobReceived client job payload
  | DOnResultAccepted client payload

fun dstep :: "environment \<Rightarrow> donate \<Rightarrow> devent \<Rightarrow> failure + donate \<times> call list" where
  "dstep env s (DSubmit result) = Inr (donate_submit s result)"
| "dstep env s DConnect = Inr (donate_connect env s)"
| "dstep env s (DSetAlgo algo) = Inr (donate_setAlgo s algo)"
| "dstep env s (DSetProxy proxy) = Inr (donate_setProxy s proxy)"
| "dstep env s (DUpdate algo proxy diff height seed) = Inr (update s algo proxy diff height seed)"
| "dstep env s DStop = Inr (donate_stop s)"
| "dstep env s (DTick now) = donate_tick env s now"
| "dstep env s (DOnActive client) = onActive env s client"
| "dstep env s DOnPause = Inr (onPause s)"
| "dstep env s (DOnClose client failures) = donate_onClose env s client failures"
| "dstep env s (DOnLoginSuccess client) = donate_onLoginSuccess env s client"
| "dstep env s (DOnVerifyAlgorithm client algorithm) = Inr (donate_onVerifyAlgorithm s client algorithm)"
| "dstep env s DOnTimer = onTimer env s"
| "dstep env s (DOnJob client j params) = Inr (onJob s client j params)"
| "dstep env s (DOnJobReceived client j params) = Inr (donate_onJobReceived s client j params)"
| "dstep env s (DOnResultAccepted client result) = Inr (donate_onResultAccepted s client result)"

section \<open>The Verthash dataset manager\<close>

text \<open>
  \<^verbatim>\<open>verthash_info_t\<close>: \<open>data\<close> is the loaded region (\<open>None\<close> for the null pointer),
  \<open>fileName\<close> the path it was loaded from (\<open>None\<close> for the null pointer). The manager
  is this structure and the flag \<open>m_initialized\<close>; \<^verbatim>\<open>init\<close> and \<^verbatim>\<open>release\<close> run
  under \<^verbatim>\<open>m_mutex\<close> from their first to their last statement, so with respect to
  each other each is one step.
\<close>

record verthash_info_t =
  data :: "nat list option"
  dataSize :: nat
  bitmask :: nat
  fileName :: "string option"

record verthash =
  m_info :: verthash_info_t
  m_initialized :: bool

datatype loader_call = InfoFree verthash_info_t | InfoInit string

text \<open>The all-zero structure that \<^verbatim>\<open>memset(&m_info, 0, sizeof(m_info))\<close> leaves.\<close>

definition zero_info :: verthash_info_t where
  "zero_info = \<lparr>data = None, dataSize = 0, bitmask = 0, fileName = None\<rparr>"

definition Verthash_new :: verthash where
  "Verthash_new = \<lparr>m_info = zero_info, m_initialized = False\<rparr>"

text \<open>
  Modelled from the spec: \<^verbatim>\<open>verthash_info_init\<close> (the spec's
  \<open>VerthashCore.loadFile\<close>) is declared in \<^verbatim>\<open>Verthash.h\<close> and is not among the
  sources. The files that can be loaded are a parameter: a path maps to the bytes of
  the file and the bitmask the loader supplies for it. On success (result \<open>0\<close>) the
  structure holds a base pointer to the region, its length in bytes, that bitmask and
  the file path identifying the loaded file; any other result is a failure.
\<close>

type_synonym dataset_files = "string \<Rightarrow> (nat list \<times> nat) option"

definition verthash_info_init :: "dataset_files \<Rightarrow> verthash_info_t \<Rightarrow> string \<Rightarrow> int \<times> verthash_info_t" where
  "verthash_info_init files info file_name =
     (case files file_name of
        None \<Rightarrow> (1, info)
      | Some (bytes, bits) \<Rightarrow>
          (0, \<lparr>data = Some bytes, dataSize = length bytes, bitmask = bits,
               fileName = Some file_name\<rparr>))"

definition init :: "dataset_files \<Rightarrow> verthash \<Rightarrow> string \<Rightarrow> bool \<times> verthash \<times> loader_call list" where
  "init files s dataFilePath =
     (if m_initialized s \<and> data (m_info s) \<noteq> None
         \<and> fileName (m_info s) = Some dataFilePath then (True, s, [])
      else
        let (s1, c1) =
              (if m_initialized s \<and> data (m_info s) \<noteq> None then
                 (s\<lparr>m_info := zero_info\<rparr>, [InfoFree (m_info s)])
               else (s, []));
            (result, info) = verthash_info_init files (m_info s1) dataFilePath
        in
          if result \<noteq> 0 then
            (False, s1\<lparr>m_info := zero_info, m_initialized := False\<rparr>, c1 @ [InfoInit dataFilePath])
          else
            (True, s1\<lparr>m_info := info, m_initialized := True\<rparr>, c1 @ [InfoInit dataFilePath]))"

text \<open>
  The accessors \<^verbatim>\<open>isValid()\<close>, \<^verbatim>\<open>data()\<close>, \<^verbatim>\<open>dataSize()\<close>, \<^verbatim>\<open>dataMask()\<close>
  and \<^verbatim>\<open>filePath()\<close> read \<open>m_info\<close> without taking \<^verbatim>\<open>m_mutex\<close>, and so do
  \<^verbatim>\<open>hash\<close> and \<^verbatim>\<open>OclVerthashRunner::loadVerthashData\<close> through them; only \<^verbatim>\<open>init\<close>
  and \<^verbatim>\<open>release\<close> exclude each other. What such a reader can find while
  \<^verbatim>\<open>init\<close> runs is given by \<open>init_trace\<close>: the state of the manager after each
  statement of the body that writes it, in program order, namely the
  \<^verbatim>\<open>memset\<close> that follows \<^verbatim>\<open>verthash_info_free\<close>, the loader's write to \<open>m_info\<close>,
  and then on failure the \<^verbatim>\<open>memset\<close> and \<^verbatim>\<open>m_initialized = false\<close>, on success
  \<^verbatim>\<open>m_initialized = true\<close>. The early return writes nothing.
\<close>

definition init_trace :: "dataset_files \<Rightarrow> verthash \<Rightarrow> string \<Rightarrow> verthash list" where
  "init_trace files s dataFilePath =
     (if m_initialized s \<and> data (m_info s) \<noteq> None
         \<and> fileName (m_info s) = Some dataFilePath then []
      else
        let t1 = (if m_initialized s \<and> data (m_info s) \<noteq> None then [s\<lparr>m_info := zero_info\<rparr>]
                  else []);
            s1 = last (s # t1);
            (result, info) = verthash_info_init files (m_info s1) dataFilePath;
            s2 = s1\<lparr>m_info := info\<rparr>
        in
          if result \<noteq> 0 then
            t1 @ [s2, s2\<lparr>m_info := zero_info\<rparr>, s2\<lparr>m_info := zero_info, m_initialized := False\<rparr>]
          else
            t1 @ [s2, s2\<lparr>m_initialized := True\<rparr>])"

definition release :: "verthash \<Rightarrow> verthash \<times> loader_call list" where
  "release s =
     (if m_initialized s then
        (s\<lparr>m_info := zero_info, m_initialized := False\<rparr>, [InfoFree (m_info s)])
      else (s, []))"

definition isValid :: "verthash \<Rightarrow> bool" where
  "isValid s = (data (m_info s) \<noteq> None \<and> dataSize (m_info s) > 0)"

definition filePath :: "verthash \<Rightarrow> string option" where
  "filePath s = fileName (m_info s)"

section \<open>Auxiliary facts\<close>

subsection \<open>Integer conversions on the values that occur\<close>

lemma size_t_small:
  assumes "m < n" and "n < 2 ^ 64"
  shows "size_t_inc m = Suc m" and "(1 < size_t_sub n m) = (Suc m < n)"
proof -
  have "Suc m < 2 ^ 64" using assms by simp
  then show "size_t_inc m = Suc m" by (simp add: size_t_inc_def)
  have "int n - int m < 2 ^ 64" using assms by simp
  then have "(int n - int m) mod 2 ^ 64 = int n - int m" using assms by simp
  then show "(1 < size_t_sub n m) = (Suc m < n)" using assms by (auto simp: size_t_sub_def)
qed

lemma int_of_size_t_small: "n < 2 ^ 31 \<Longrightarrow> int_of_size_t n = int n"
proof -
  assume "n < 2 ^ 31"
  then have "int n < 2 ^ 31" by (metis of_nat_less_iff of_nat_numeral of_nat_power)
  then show ?thesis by (simp add: int_of_size_t_def)
qed

lemma succ_mod: "m < n \<Longrightarrow> Suc m mod n = (if Suc m < n then Suc m else 0)"
  by (auto simp: not_less Suc_le_eq dest: le_antisym)

subsection \<open>Pool vectors\<close>

lemma valid_pools_nth:
  "valid_pools pools \<Longrightarrow> k < length pools \<Longrightarrow> pools ! k = int k"
proof -
  assume v: "valid_pools pools" and k: "k < length pools"
  then have "pools ! k = map int [0 ..< length pools] ! k" by (simp add: valid_pools_def)
  also have "\<dots> = int k" using k by simp
  finally show ?thesis .
qed

lemma valid_pools_size: "valid_pools pools \<Longrightarrow> length pools < 2 ^ 64"
  by (simp add: valid_pools_def order_le_less_trans [where y = "2 ^ 31"])

lemma valid_pools_member:
  assumes "valid_pools pools" and "client \<in> set pools"
  shows "0 \<le> client" and "nat client < length pools" and "size_t_of_int client = nat client"
proof -
  from assms(2) obtain k where k: "k < length pools" "pools ! k = client"
    by (auto simp: in_set_conv_nth)
  with assms(1) have c: "client = int k" by (simp add: valid_pools_nth)
  from assms have len: "length pools \<le> 2 ^ 31" by (simp add: valid_pools_def)
  show "0 \<le> client" using c by simp
  show "nat client < length pools" using k c by simp
  have "int k < 2 ^ 64" using k len by (simp add: order_less_le_trans [where y = "2 ^ 31"])
  then show "size_t_of_int client = nat client" using c by (simp add: size_t_of_int_def)
qed

text \<open>The constructor builds such a vector.\<close>

lemma add_valid_pools:
  assumes "valid_pools (m_pools s)" and "length (m_pools s) < 2 ^ 31"
  shows "valid_pools (m_pools (add s))"
  using assms by (simp add: add_def valid_pools_def int_of_size_t_small)

lemma FailoverStrategy_new_2:
  "FailoverStrategy_new 2 r =
     \<lparr>m_retries = r, m_pools = [0, 1], m_index = 0, m_active = - 1,
      m_minAcceptableIndex = 0, m_pendingConnect = False, m_pendingIndex = 0\<rparr>"
  by (simp add: FailoverStrategy_new_def FailoverStrategy_empty_def add_def int_of_size_t_def
      numeral_2_eq_2)

lemma FailoverStrategy_new_3:
  "FailoverStrategy_new 3 r =
     \<lparr>m_retries = r, m_pools = [0, 1, 2], m_index = 0, m_active = - 1,
      m_minAcceptableIndex = 0, m_pendingConnect = False, m_pendingIndex = 0\<rparr>"
  by (simp add: FailoverStrategy_new_def FailoverStrategy_empty_def add_def int_of_size_t_def
      numeral_3_eq_3)

lemma valid_pools_3: "valid_pools [0, 1, 2]"
  by (simp add: valid_pools_def upt_conv_Cons)

subsection \<open>The two loops\<close>

lemma disconnect_loop_in_range:
  "m < length pools \<Longrightarrow> i \<le> Suc m \<Longrightarrow>
   disconnect_loop pools i m = Some (map (\<lambda>k. ClientDisconnect (pools ! k)) [i ..< Suc m])"
proof (induction "Suc m - i" arbitrary: i)
  case 0
  then have "i = Suc m" by simp
  then show ?case by (simp add: disconnect_loop.simps)
next
  case (Suc d)
  then have le: "i \<le> m" and lt: "i < length pools" by auto
  from Suc have ih: "disconnect_loop pools (Suc i) m
      = Some (map (\<lambda>k. ClientDisconnect (pools ! k)) [Suc i ..< Suc m])"
    by auto
  have "[i ..< Suc m] = i # [Suc i ..< Suc m]"
    using le by (simp add: upt_conv_Cons)
  then show ?case
    using le lt ih by (subst disconnect_loop.simps) (simp add: pool_at_def)
qed

lemma disconnect_loop_defined:
  "disconnect_loop pools i m = Some cs \<Longrightarrow> i \<le> m \<Longrightarrow> m < length pools"
proof (induction pools i m arbitrary: cs rule: disconnect_loop.induct)
  case (1 pools i m)
  from "1.prems" have lt: "i < length pools"
    by (subst (asm) disconnect_loop.simps) (auto simp: pool_at_def split: if_splits)
  show ?case
  proof (cases "Suc i \<le> m")
    case True
    from "1.prems" lt obtain cs' where "disconnect_loop pools (Suc i) m = Some cs'"
      by (subst (asm) disconnect_loop.simps) (auto simp: pool_at_def split: option.splits)
    with "1.IH" [of "pools ! i" cs'] "1.prems"(2) lt True show ?thesis
      by (simp add: pool_at_def)
  next
    case False
    with "1.prems"(2) have "i = m" by simp
    with lt show ?thesis by simp
  qed
qed

lemma disconnect_others_valid:
  assumes "valid_pools pools"
  shows "disconnect_others pools active = map ClientDisconnect (filter (\<lambda>p. p \<noteq> active) pools)"
proof -
  let ?n = "length pools"
  have small: "\<And>i. i \<in> set [0 ..< ?n] \<Longrightarrow> int_of_size_t i = int i"
    using assms by (simp add: valid_pools_def int_of_size_t_small)
  have nth: "\<And>i. i \<in> set [0 ..< ?n] \<Longrightarrow> pools ! i = int i"
    using assms by (simp add: valid_pools_nth)
  have f: "filter (\<lambda>i. active \<noteq> int_of_size_t i) [0 ..< ?n]
      = filter (\<lambda>i. int i \<noteq> active) [0 ..< ?n]"
    by (rule filter_cong) (auto simp: small)
  have "disconnect_others pools active
      = map (\<lambda>i. ClientDisconnect (int i)) (filter (\<lambda>i. int i \<noteq> active) [0 ..< ?n])"
    unfolding disconnect_others_def f
    by (rule map_cong) (auto simp: nth)
  also have "\<dots> = map ClientDisconnect (filter (\<lambda>p. p \<noteq> active) (map int [0 ..< ?n]))"
    by (simp add: filter_map comp_def)
  also have "map int [0 ..< ?n] = pools" using assms by (simp add: valid_pools_def)
  finally show ?thesis .
qed

subsection \<open>Evaluation of the FailoverStrategy methods on concrete states\<close>

lemmas fail_eval = connect_def stop_def tick_def connectNext_def onClose_def onLoginSuccess_def
  pool_at_def size_t_of_int_def size_t_sub_def size_t_inc_def int_of_size_t_def
  disconnect_loop.simps disconnect_others_def isActive_def

subsection \<open>What a step leaves alone, and how it moves \<open>m_minAcceptableIndex\<close>\<close>

lemma onClose_frame:
  "onClose s client failures = Some (s', cs) \<Longrightarrow>
   m_retries s' = m_retries s \<and> m_pools s' = m_pools s"
  by (auto simp: onClose_def Let_def split: if_splits option.splits)

lemma fstep_frame:
  "fstep s e = Some (s', cs) \<Longrightarrow> m_retries s' = m_retries s \<and> m_pools s' = m_pools s"
proof (cases e)
  case (Close client failures)
  assume "fstep s e = Some (s', cs)"
  with Close show ?thesis using onClose_frame [of s client failures s' cs] by simp
qed (auto simp: connect_def stop_def tick_def connectNext_def onLoginSuccess_def Let_def
    split: if_splits option.splits)

lemma onClose_min_step:
  assumes "m_retries s = 0" and "length (m_pools s) < 2 ^ 64"
    and "\<not> exhausts s (Close client failures)"
    and "onClose s client failures = Some (s', cs)"
  shows "m_minAcceptableIndex s \<le> m_minAcceptableIndex s'"
proof (cases "failures \<noteq> - 1 \<and> \<not> size_t_of_int client < m_minAcceptableIndex s
    \<and> m_index s = size_t_of_int client")
  case False
  with assms(1,4) show ?thesis
    by (auto simp: onClose_def Let_def split: if_splits option.splits)
next
  case True
  with assms(1,4) obtain c2 where c2: "disconnect_loop (m_pools s) 0 (m_index s) = Some c2"
    by (auto simp: onClose_def Let_def split: if_splits option.splits)
  then have idx: "m_index s < length (m_pools s)" by (rule disconnect_loop_defined) simp
  note sz = size_t_small [OF idx assms(2)]
  from True assms(1,3) have more: "1 < size_t_sub (length (m_pools s)) (m_index s)" by simp
  from True have "m_minAcceptableIndex s \<le> m_index s" by simp
  moreover have "m_minAcceptableIndex s' = Suc (m_index s)"
    using assms(1,4) True c2 more sz(1)
    by (auto simp: onClose_def Let_def split: if_splits)
  ultimately show ?thesis by simp
qed

lemma fstep_min_step:
  assumes "m_retries s = 0" and "length (m_pools s) < 2 ^ 64"
    and "\<not> is_login e" and "\<not> exhausts s e" and "fstep s e = Some (s', cs)"
  shows "m_minAcceptableIndex s \<le> m_minAcceptableIndex s'"
proof (cases e)
  case (Close client failures)
  with assms show ?thesis using onClose_min_step [of s client failures s' cs] by simp
next
  case (LoginSuccess client)
  with assms(3) show ?thesis by simp
qed (use assms(5) in \<open>auto simp: connect_def stop_def tick_def connectNext_def Let_def
    split: if_splits option.splits\<close>)

lemma cascade_min_mono:
  "m_retries s = 0 \<Longrightarrow> length (m_pools s) < 2 ^ 64 \<Longrightarrow> cascade s es \<Longrightarrow>
   frun s es = Some (s', cs) \<Longrightarrow> m_minAcceptableIndex s \<le> m_minAcceptableIndex s'"
proof (induction es arbitrary: s cs)
  case Nil
  then show ?case by simp
next
  case (Cons e es)
  from Cons.prems(3) obtain s1 c1 where st: "fstep s e = Some (s1, c1)"
    and rest: "cascade s1 es" and ne: "\<not> is_login e" "\<not> exhausts s e"
    by (auto split: option.splits)
  from Cons.prems(4) st obtain c2 where run: "frun s1 es = Some (s', c2)"
    by (auto split: option.splits)
  from fstep_frame [OF st] Cons.prems(1,2)
  have inv: "m_retries s1 = 0" "length (m_pools s1) < 2 ^ 64" by simp_all
  have "m_minAcceptableIndex s \<le> m_minAcceptableIndex s1"
    by (rule fstep_min_step [OF Cons.prems(1,2) ne st])
  also have "\<dots> \<le> m_minAcceptableIndex s'"
    by (rule Cons.IH [OF inv rest run])
  finally show ?case .
qed

lemma onClose_exhausted:
  assumes "exhausts s (Close client failures)" and "onClose s client failures = Some (s', cs)"
  shows "m_minAcceptableIndex s' = 0 \<and> m_pendingIndex s' = 0 \<and> m_pendingConnect s'"
  using assms by (auto simp: onClose_def Let_def split: if_splits option.splits)

lemma onLoginSuccess_resets:
  "\<not> (m_retries s = 0 \<and> size_t_of_int client < m_minAcceptableIndex s) \<Longrightarrow>
   m_minAcceptableIndex (fst (onLoginSuccess s client)) = 0"
  by (simp add: onLoginSuccess_def Let_def)

subsection \<open>DonateStrategy: when the listener is paused\<close>

lemma setState_onPause:
  "setState env s st = Inr (s', cs) \<Longrightarrow>
   (ListenerOnPause \<in> set cs) = (st = STATE_WAIT \<and> m_state s \<noteq> STATE_WAIT)"
  by (cases st)
    (auto simp: setState_def idle_def donate_connect_def createProxy_def Let_def
      split: if_splits option.splits prod.splits)

lemma setState_state:
  "setState env s st = Inr (s', cs) \<Longrightarrow> m_state s' = st"
  by (cases st)
    (auto simp: setState_def idle_def donate_connect_def createProxy_def Let_def
      split: if_splits option.splits prod.splits)

lemma dstep_onPause:
  "dstep env s e = Inr (s', cs) \<Longrightarrow>
   (ListenerOnPause \<in> set cs) = (m_state s \<noteq> STATE_WAIT \<and> m_state s' = STATE_WAIT)"
proof (cases e)
  case (DTick now)
  assume a: "dstep env s e = Inr (s', cs)"
  show ?thesis
  proof (cases "m_state s = STATE_WAIT \<and> now > m_timestamp s")
    case True
    with a DTick obtain c2
      where s2: "setState env (s\<lparr>m_now := now\<rparr>) STATE_IDLE = Inr (s', c2)"
        and cs: "cs = (StrategyTick now
                  # (case m_proxy s of Some p \<Rightarrow> [ClientTick p now] | None \<Rightarrow> [])) @ c2"
      by (auto simp: donate_tick_def Let_def split: sum.splits)
    from setState_onPause [OF s2] setState_state [OF s2] cs True show ?thesis
      by (auto split: option.splits)
  next
    case False
    with a DTick show ?thesis
      by (auto simp: donate_tick_def Let_def split: option.splits)
  qed
next
  case (DOnActive client)
  assume a: "dstep env s e = Inr (s', cs)"
  show ?thesis
  proof (cases "donate_isActive s")
    case True
    with a DOnActive show ?thesis by (auto simp: onActive_def donate_isActive_def)
  next
    case False
    with a DOnActive obtain c1 where s1: "setState env s STATE_ACTIVE = Inr (s', c1)"
      and cs: "cs = c1 @ [ListenerOnActive client]"
      by (auto simp: onActive_def split: sum.splits)
    from setState_onPause [OF s1] setState_state [OF s1] cs show ?thesis by auto
  qed
next
  case (DOnLoginSuccess client)
  assume a: "dstep env s e = Inr (s', cs)"
  show ?thesis
  proof (cases "donate_isActive s")
    case True
    with a DOnLoginSuccess show ?thesis
      by (auto simp: donate_onLoginSuccess_def donate_isActive_def)
  next
    case False
    with a DOnLoginSuccess obtain c1 where s1: "setState env s STATE_ACTIVE = Inr (s', c1)"
      and cs: "cs = c1 @ [ListenerOnActive client]"
      by (auto simp: donate_onLoginSuccess_def split: sum.splits)
    from setState_onPause [OF s1] setState_state [OF s1] cs show ?thesis by auto
  qed
next
  case DOnTimer
  assume a: "dstep env s e = Inr (s', cs)"
  with DOnTimer
  have s1: "setState env s (if donate_isActive s then STATE_WAIT else STATE_CONNECT)
      = Inr (s', cs)"
    by (simp add: onTimer_def)
  from setState_onPause [OF s1] setState_state [OF s1] show ?thesis
    by (auto simp: donate_isActive_def split: if_splits)
next
  case (DOnClose client failures)
  assume "dstep env s e = Inr (s', cs)"
  with DOnClose show ?thesis
    by (auto simp: donate_onClose_def split: if_splits option.splits)
qed (auto simp: donate_submit_def donate_connect_def createProxy_def donate_setAlgo_def
    donate_setProxy_def update_def donate_stop_def onPause_def donate_onVerifyAlgorithm_def
    onJob_def donate_onJobReceived_def setJob_def donate_onResultAccepted_def setResult_def
    Let_def split: if_splits option.splits prod.splits)

subsection \<open>The dataset manager after a successful \<^verbatim>\<open>init\<close>\<close>

lemma init_success_state:
  "init files s p = (True, s1, cs) \<Longrightarrow>
   m_initialized s1 \<and> data (m_info s1) \<noteq> None \<and> fileName (m_info s1) = Some p"
  by (auto simp: init_def verthash_info_init_def Let_def
      split: if_splits option.splits prod.splits)

text \<open>The trace ends in the state that \<^verbatim>\<open>init\<close> returns.\<close>

lemma init_trace_last:
  "init files s p = (r, s', cs) \<Longrightarrow> last (s # init_trace files s p) = s'"
  by (auto simp: init_def init_trace_def Let_def split: if_splits prod.splits)

section \<open>FailoverStrategy: the claims\<close>

text \<open>
  Claim C1, as amended. In zero-retry mode, for a close with \<open>failures \<ge> 0\<close> from the
  client whose id is the current \<open>m_index\<close>, \<^emph>\<open>provided that id is not below
  \<open>m_minAcceptableIndex\<close>\<close>: the strategy pauses the listener if that client was the
  active one, disconnects the pools \<open>0, \<dots>, m_index\<close> in this order, sets the
  pending index and \<open>m_minAcceptableIndex\<close> to \<open>(m_index + 1) mod size\<close> (so to \<open>0\<close>
  when the list is exhausted) and raises \<open>m_pendingConnect\<close>. It calls
  \<^verbatim>\<open>connect()\<close> on no client; the next \<^verbatim>\<open>tick(now)\<close> moves \<open>m_index\<close> to the
  pending index, clears the flag and connects that pool.
\<close>

theorem onClose_zero_retry_current:
  assumes "m_retries s = 0" and "0 \<le> failures"
    and "valid_pools (m_pools s)" and "client \<in> set (m_pools s)"
    and "m_index s = size_t_of_int client"
    and "m_minAcceptableIndex s \<le> m_index s"
  shows "onClose s client failures =
           Some (s\<lparr>m_active := (if m_active s = client then - 1 else m_active s),
                   m_minAcceptableIndex := Suc (m_index s) mod length (m_pools s),
                   m_pendingConnect := True,
                   m_pendingIndex := Suc (m_index s) mod length (m_pools s)\<rparr>,
                 (if m_active s = client then [ListenerOnPause] else [])
                   @ map (\<lambda>k. ClientDisconnect (int k)) [0 ..< Suc (m_index s)])
       \<and> tick (s\<lparr>m_active := (if m_active s = client then - 1 else m_active s),
                  m_minAcceptableIndex := Suc (m_index s) mod length (m_pools s),
                  m_pendingConnect := True,
                  m_pendingIndex := Suc (m_index s) mod length (m_pools s)\<rparr>) now =
           (s\<lparr>m_active := (if m_active s = client then - 1 else m_active s),
               m_minAcceptableIndex := Suc (m_index s) mod length (m_pools s),
               m_pendingIndex := Suc (m_index s) mod length (m_pools s),
               m_pendingConnect := False,
               m_index := Suc (m_index s) mod length (m_pools s)\<rparr>,
            map (\<lambda>c. ClientTick c now) (m_pools s)
              @ [ClientConnect (int (Suc (m_index s) mod length (m_pools s)))])"
    (is "?close \<and> ?tick")
proof
  note m = valid_pools_member [OF assms(3) assms(4)]
  have idx: "m_index s < length (m_pools s)" using m assms(5) by simp
  have "map (\<lambda>k. ClientDisconnect (m_pools s ! k)) [0 ..< Suc (m_index s)]
      = map (\<lambda>k. ClientDisconnect (int k)) [0 ..< Suc (m_index s)]"
    using idx by (intro map_cong) (auto simp: valid_pools_nth [OF assms(3)])
  then have loop: "disconnect_loop (m_pools s) 0 (m_index s)
      = Some (map (\<lambda>k. ClientDisconnect (int k)) [0 ..< Suc (m_index s)])"
    using disconnect_loop_in_range [OF idx, of 0] by simp
  note sz = size_t_small [OF idx valid_pools_size [OF assms(3)]]
  have ng: "\<not> size_t_of_int client < m_minAcceptableIndex s" using assms(5,6) by simp
  have f: "failures \<noteq> - 1" using assms(2) by simp
  show ?close
    unfolding succ_mod [OF idx]
    using assms(1) assms(5) ng f loop sz
    by (simp add: onClose_def)
  have np: "Suc (m_index s) mod length (m_pools s) < length (m_pools s)"
    using idx by (intro mod_less_divisor) auto
  then show ?tick
    by (simp add: tick_def connectNext_def valid_pools_nth [OF assms(3) np])
qed

text \<open>
  The second of three pools fails while the strategy is on it: pools 0 and 1 are
  disconnected, pool 2 is scheduled, and the tick that follows connects pool 2.
\<close>

theorem onClose_zero_retry_current_witness:
  "onClose \<lparr>m_retries = 0, m_pools = [0, 1, 2], m_index = 1, m_active = - 1,
        m_minAcceptableIndex = 1, m_pendingConnect = False, m_pendingIndex = 1\<rparr> 1 0 =
     Some (\<lparr>m_retries = 0, m_pools = [0, 1, 2], m_index = 1, m_active = - 1,
        m_minAcceptableIndex = 2, m_pendingConnect = True, m_pendingIndex = 2\<rparr>,
           [ClientDisconnect 0, ClientDisconnect 1])
   \<and> tick \<lparr>m_retries = 0, m_pools = [0, 1, 2], m_index = 1, m_active = - 1,
        m_minAcceptableIndex = 2, m_pendingConnect = True, m_pendingIndex = 2\<rparr> 7 =
       (\<lparr>m_retries = 0, m_pools = [0, 1, 2], m_index = 2, m_active = - 1,
        m_minAcceptableIndex = 2, m_pendingConnect = False, m_pendingIndex = 2\<rparr>,
        [ClientTick 0 7, ClientTick 1 7, ClientTick 2 7, ClientConnect 2])"
  using onClose_zero_retry_current [of
      "\<lparr>m_retries = 0, m_pools = [0, 1, 2], m_index = 1, m_active = - 1,
        m_minAcceptableIndex = 1, m_pendingConnect = False, m_pendingIndex = 1\<rparr>" 0 1 7]
  by (simp add: valid_pools_3 size_t_of_int_def upt_conv_Cons numeral_2_eq_2)

text \<open>
  Claim C1 as stated fails, on the test of the client's id against
  \<open>m_minAcceptableIndex\<close> that \<^verbatim>\<open>onClose\<close> makes first. Three pools, zero retries.

  First run: pool 0 and then pool 1 fail, pool 2 is being connected, and the strategy
  is stopped and connected again, so that \<open>m_index\<close> is back at \<open>0\<close> while
  \<open>m_minAcceptableIndex\<close> is still \<open>2\<close>. A close from pool 0, the current
  \<open>m_index\<close>, with \<open>failures = 0\<close> then only disconnects that client: no connect
  is made pending, and neither the pending index nor \<open>m_minAcceptableIndex\<close>
  becomes \<open>1\<close>.

  Second run: pool 0 and then pool 1 fail. Before the next tick \<open>m_index\<close> is still
  \<open>1\<close> and \<open>m_minAcceptableIndex\<close> is \<open>2\<close>; another close from pool 1 with
  \<open>failures = 0\<close> disconnects pool 1 only, not pool 0.
\<close>

theorem onClose_zero_retry_suppressed_counterexample:
  "frun (FailoverStrategy_new 3 0) [Connect, Close 0 0, Tick 1, Close 1 0, Tick 2, Stop, Connect]
     = Some (\<lparr>m_retries = 0, m_pools = [0, 1, 2], m_index = 0, m_active = - 1,
        m_minAcceptableIndex = 2, m_pendingConnect = False, m_pendingIndex = 2\<rparr>,
             [ClientConnect 0, ClientDisconnect 0,
              ClientTick 0 1, ClientTick 1 1, ClientTick 2 1, ClientConnect 1,
              ClientDisconnect 0, ClientDisconnect 1,
              ClientTick 0 2, ClientTick 1 2, ClientTick 2 2, ClientConnect 2,
              ClientDisconnect 0, ClientDisconnect 1, ClientDisconnect 2, ListenerOnPause,
              ClientConnect 0])
   \<and> m_index \<lparr>m_retries = 0, m_pools = [0, 1, 2], m_index = 0, m_active = - 1,
        m_minAcceptableIndex = 2, m_pendingConnect = False, m_pendingIndex = 2\<rparr> = size_t_of_int 0
   \<and> onClose \<lparr>m_retries = 0, m_pools = [0, 1, 2], m_index = 0, m_active = - 1,
        m_minAcceptableIndex = 2, m_pendingConnect = False, m_pendingIndex = 2\<rparr> 0 0
     = Some (\<lparr>m_retries = 0, m_pools = [0, 1, 2], m_index = 0, m_active = - 1,
        m_minAcceptableIndex = 2, m_pendingConnect = False, m_pendingIndex = 2\<rparr>,
             [ClientDisconnect 0])
   \<and> frun (FailoverStrategy_new 3 0) [Connect, Close 0 0, Tick 1, Close 1 0]
     = Some (\<lparr>m_retries = 0, m_pools = [0, 1, 2], m_index = 1, m_active = - 1,
        m_minAcceptableIndex = 2, m_pendingConnect = True, m_pendingIndex = 2\<rparr>,
             [ClientConnect 0, ClientDisconnect 0,
              ClientTick 0 1, ClientTick 1 1, ClientTick 2 1, ClientConnect 1,
              ClientDisconnect 0, ClientDisconnect 1])
   \<and> m_index \<lparr>m_retries = 0, m_pools = [0, 1, 2], m_index = 1, m_active = - 1,
        m_minAcceptableIndex = 2, m_pendingConnect = True, m_pendingIndex = 2\<rparr> = size_t_of_int 1
   \<and> onClose \<lparr>m_retries = 0, m_pools = [0, 1, 2], m_index = 1, m_active = - 1,
        m_minAcceptableIndex = 2, m_pendingConnect = True, m_pendingIndex = 2\<rparr> 1 0
     = Some (\<lparr>m_retries = 0, m_pools = [0, 1, 2], m_index = 1, m_active = - 1,
        m_minAcceptableIndex = 2, m_pendingConnect = True, m_pendingIndex = 2\<rparr>,
             [ClientDisconnect 1])"
  by (simp add: FailoverStrategy_new_3 fail_eval)

text \<open>
  Claim C2. For a login success from one of the strategy's clients: in zero-retry
  mode, if the client's id is below \<open>m_minAcceptableIndex\<close>, that client is
  disconnected and nothing else happens. Otherwise the pending connect is cancelled
  and \<open>m_minAcceptableIndex\<close> is reset to \<open>0\<close>; the client becomes the active one
  exactly if its id is \<open>0\<close> or no pool is active; every pool other than the (new)
  active one is disconnected; and exactly when the active id changed, \<open>m_active\<close>
  and \<open>m_index\<close> are set to the client's id and \<^verbatim>\<open>onActive\<close> is emitted.
\<close>

theorem onLoginSuccess_effect:
  assumes "valid_pools (m_pools s)" and "client \<in> set (m_pools s)"
  shows "onLoginSuccess s client =
     (if m_retries s = 0 \<and> nat client < m_minAcceptableIndex s then
        (s, [ClientDisconnect client])
      else if (client = 0 \<or> \<not> isActive s) \<and> client \<noteq> m_active s then
        (s\<lparr>m_pendingConnect := False, m_minAcceptableIndex := 0,
           m_active := client, m_index := nat client\<rparr>,
         map ClientDisconnect (filter (\<lambda>p. p \<noteq> client) (m_pools s))
           @ [ListenerOnActive client])
      else
        (s\<lparr>m_pendingConnect := False, m_minAcceptableIndex := 0\<rparr>,
         map ClientDisconnect (filter (\<lambda>p. p \<noteq> m_active s) (m_pools s))))"
proof -
  note m = valid_pools_member [OF assms]
  have d: "\<And>a. disconnect_others (m_pools s) a
      = map ClientDisconnect (filter (\<lambda>p. p \<noteq> a) (m_pools s))"
    by (rule disconnect_others_valid [OF assms(1)])
  show ?thesis
    using m by (auto simp: onLoginSuccess_def isActive_def d Let_def)
qed

text \<open>
  While the strategy waits for pool 1, a login success of pool 1 makes it active and
  one of pool 0 is refused.
\<close>

theorem onLoginSuccess_effect_witness:
  "onLoginSuccess \<lparr>m_retries = 0, m_pools = [0, 1, 2], m_index = 1, m_active = - 1,
        m_minAcceptableIndex = 1, m_pendingConnect = True, m_pendingIndex = 1\<rparr> 1 =
     (\<lparr>m_retries = 0, m_pools = [0, 1, 2], m_index = 1, m_active = 1,
        m_minAcceptableIndex = 0, m_pendingConnect = False, m_pendingIndex = 1\<rparr>,
      [ClientDisconnect 0, ClientDisconnect 2, ListenerOnActive 1])
   \<and> onLoginSuccess \<lparr>m_retries = 0, m_pools = [0, 1, 2], m_index = 1, m_active = - 1,
        m_minAcceptableIndex = 1, m_pendingConnect = True, m_pendingIndex = 1\<rparr> 0 =
     (\<lparr>m_retries = 0, m_pools = [0, 1, 2], m_index = 1, m_active = - 1,
        m_minAcceptableIndex = 1, m_pendingConnect = True, m_pendingIndex = 1\<rparr>,
      [ClientDisconnect 0])"
  using onLoginSuccess_effect [of
      "\<lparr>m_retries = 0, m_pools = [0, 1, 2], m_index = 1, m_active = - 1,
        m_minAcceptableIndex = 1, m_pendingConnect = True, m_pendingIndex = 1\<rparr>" 1]
    onLoginSuccess_effect [of
      "\<lparr>m_retries = 0, m_pools = [0, 1, 2], m_index = 1, m_active = - 1,
        m_minAcceptableIndex = 1, m_pendingConnect = True, m_pendingIndex = 1\<rparr>" 0]
  by (simp add: valid_pools_3 isActive_def)

text \<open>
  Claim C3, as amended. In zero-retry mode, \<open>m_minAcceptableIndex\<close> does not
  decrease over any run of events that contains no login success and \<^emph>\<open>no close that
  exhausts the pool list\<close>; a close that exhausts the list (the cascade wraps around to
  pool 0) resets it to \<open>0\<close>; and so does every login success that is not refused.
\<close>

theorem minAcceptableIndex_cascade:
  assumes "m_retries s = 0" and "length (m_pools s) < 2 ^ 64"
  shows "(\<forall>es s' cs. cascade s es \<and> frun s es = Some (s', cs) \<longrightarrow>
            m_minAcceptableIndex s \<le> m_minAcceptableIndex s')
       \<and> (\<forall>client failures s' cs.
            exhausts s (Close client failures) \<and> onClose s client failures = Some (s', cs) \<longrightarrow>
            m_minAcceptableIndex s' = 0)
       \<and> (\<forall>client. \<not> size_t_of_int client < m_minAcceptableIndex s \<longrightarrow>
            m_minAcceptableIndex (fst (onLoginSuccess s client)) = 0)"
  using assms cascade_min_mono onClose_exhausted onLoginSuccess_resets by blast

theorem minAcceptableIndex_cascade_witness:
  "cascade (FailoverStrategy_new 3 0) [Connect, Close 0 0, Tick 1, Close 1 0, Tick 2]
   \<and> map_option (m_minAcceptableIndex \<circ> fst)
       (frun (FailoverStrategy_new 3 0) [Connect, Close 0 0, Tick 1, Close 1 0, Tick 2]) = Some 2
   \<and> m_minAcceptableIndex (FailoverStrategy_new 3 0) \<le> 2"
  using minAcceptableIndex_cascade [of "FailoverStrategy_new 3 0"]
  by (simp add: FailoverStrategy_new_3 fail_eval)

text \<open>
  Claim C3 as stated fails. Three pools, zero retries, no login success: after the
  closes of pool 0 and pool 1 the value is \<open>2\<close>; the close of pool 2, with
  \<open>failures = 0\<close>, brings it down to \<open>0\<close>.
\<close>

theorem minAcceptableIndex_wrap_counterexample:
  "map_option (m_minAcceptableIndex \<circ> fst)
     (frun (FailoverStrategy_new 3 0) [Connect, Close 0 0, Tick 1, Close 1 0, Tick 2]) = Some 2
   \<and> map_option (m_minAcceptableIndex \<circ> fst)
     (frun (FailoverStrategy_new 3 0) [Connect, Close 0 0, Tick 1, Close 1 0, Tick 2, Close 2 0])
       = Some 0"
  by (simp add: FailoverStrategy_new_3 fail_eval)

text \<open>
  Claim C7, as amended. With \<open>retries > 0\<close>, for a close with \<open>failures \<ge> 0\<close> from
  one of the strategy's clients: \<^emph>\<open>if the closing client was the active one,
  \<open>m_active\<close> is cleared and the listener is paused\<close>; beyond that, if \<open>m_index = 0\<close>
  and \<open>failures < retries\<close> nothing changes; otherwise, if the client's id is
  \<open>m_index\<close> and a next pool exists, \<open>m_index\<close> is incremented and that pool is
  connected within the call; in particular pool 0 with \<open>failures \<ge> retries\<close>
  advances to pool 1.
\<close>

theorem onClose_retry_mode:
  assumes "0 < m_retries s" and "0 \<le> failures"
    and "valid_pools (m_pools s)" and "client \<in> set (m_pools s)"
  shows "(m_index s = 0 \<and> failures < m_retries s \<longrightarrow>
            onClose s client failures =
              Some (s\<lparr>m_active := (if m_active s = client then - 1 else m_active s)\<rparr>,
                    if m_active s = client then [ListenerOnPause] else []))
       \<and> (\<not> (m_index s = 0 \<and> failures < m_retries s)
            \<and> m_index s = nat client \<and> Suc (m_index s) < length (m_pools s) \<longrightarrow>
            onClose s client failures =
              Some (s\<lparr>m_active := (if m_active s = client then - 1 else m_active s),
                      m_index := Suc (m_index s)\<rparr>,
                    (if m_active s = client then [ListenerOnPause] else [])
                      @ [ClientConnect (int (Suc (m_index s)))]))
       \<and> (m_index s = 0 \<and> client = 0 \<and> m_retries s \<le> failures \<and> 1 < length (m_pools s) \<longrightarrow>
            onClose s client failures =
              Some (s\<lparr>m_active := (if m_active s = 0 then - 1 else m_active s), m_index := 1\<rparr>,
                    (if m_active s = 0 then [ListenerOnPause] else []) @ [ClientConnect 1]))"
    (is "?stay \<and> ?advance \<and> ?first")
proof -
  note m = valid_pools_member [OF assms(3) assms(4)]
  have f: "failures \<noteq> - 1" using assms(2) by simp
  have r: "m_retries s \<noteq> 0" using assms(1) by simp
  have stay: ?stay using f r by (auto simp: onClose_def)
  have advance: ?advance
  proof (intro impI, elim conjE)
    assume a: "\<not> (m_index s = 0 \<and> failures < m_retries s)"
      and i: "m_index s = nat client" and n: "Suc (m_index s) < length (m_pools s)"
    have idx: "m_index s < length (m_pools s)" using n by simp
    note sz = size_t_small [OF idx valid_pools_size [OF assms(3)]]
    have p: "pool_at (m_pools s) (Suc (m_index s)) = Some (int (Suc (m_index s)))"
      using n by (simp add: pool_at_def valid_pools_nth [OF assms(3)])
    show "onClose s client failures =
              Some (s\<lparr>m_active := (if m_active s = client then - 1 else m_active s),
                      m_index := Suc (m_index s)\<rparr>,
                    (if m_active s = client then [ListenerOnPause] else [])
                      @ [ClientConnect (int (Suc (m_index s)))])"
      using f r a i n m(3) sz p by (auto simp: onClose_def)
  qed
  have ?first
  proof (intro impI, elim conjE)
    assume a: "m_index s = 0" "client = 0" "m_retries s \<le> failures" "1 < length (m_pools s)"
    then have "\<not> (m_index s = 0 \<and> failures < m_retries s)
            \<and> m_index s = nat client \<and> Suc (m_index s) < length (m_pools s)"
      by simp
    with advance have "onClose s client failures =
              Some (s\<lparr>m_active := (if m_active s = client then - 1 else m_active s),
                      m_index := Suc (m_index s)\<rparr>,
                    (if m_active s = client then [ListenerOnPause] else [])
                      @ [ClientConnect (int (Suc (m_index s)))])"
      by blast
    with a(1,2) show "onClose s client failures =
              Some (s\<lparr>m_active := (if m_active s = 0 then - 1 else m_active s), m_index := 1\<rparr>,
                    (if m_active s = 0 then [ListenerOnPause] else []) @ [ClientConnect 1])"
      by simp
  qed
  with stay advance show ?thesis by blast
qed

text \<open>
  Five retries, three pools: the fifth failure of the active pool 0 advances to
  pool 1; the fourth failure of pool 0, when no pool is active, changes nothing.
\<close>

theorem onClose_retry_mode_witness:
  "onClose \<lparr>m_retries = 5, m_pools = [0, 1, 2], m_index = 0, m_active = 0,
        m_minAcceptableIndex = 0, m_pendingConnect = False, m_pendingIndex = 0\<rparr> 0 5 =
     Some (\<lparr>m_retries = 5, m_pools = [0, 1, 2], m_index = 1, m_active = - 1,
        m_minAcceptableIndex = 0, m_pendingConnect = False, m_pendingIndex = 0\<rparr>,
           [ListenerOnPause, ClientConnect 1])
   \<and> onClose \<lparr>m_retries = 5, m_pools = [0, 1, 2], m_index = 0, m_active = - 1,
        m_minAcceptableIndex = 0, m_pendingConnect = False, m_pendingIndex = 0\<rparr> 0 4 =
     Some (\<lparr>m_retries = 5, m_pools = [0, 1, 2], m_index = 0, m_active = - 1,
        m_minAcceptableIndex = 0, m_pendingConnect = False, m_pendingIndex = 0\<rparr>, [])"
  using onClose_retry_mode [of
      "\<lparr>m_retries = 5, m_pools = [0, 1, 2], m_index = 0, m_active = 0,
        m_minAcceptableIndex = 0, m_pendingConnect = False, m_pendingIndex = 0\<rparr>" 5 0]
    onClose_retry_mode [of
      "\<lparr>m_retries = 5, m_pools = [0, 1, 2], m_index = 0, m_active = - 1,
        m_minAcceptableIndex = 0, m_pendingConnect = False, m_pendingIndex = 0\<rparr>" 4 0]
  by (simp add: valid_pools_3)

text \<open>
  Claim C7 as stated fails. Two pools, five retries: pool 0 logs in and is active.
  Its close with \<open>failures = 1\<close> arrives with \<open>m_index = 0\<close> and
  \<open>failures < retries\<close>, and the strategy does change state: \<open>m_active\<close> goes from
  \<open>0\<close> to \<open>-1\<close> and the listener is paused.
\<close>

theorem onClose_retry_mode_counterexample:
  "frun (FailoverStrategy_new 2 5) [Connect, LoginSuccess 0]
     = Some (\<lparr>m_retries = 5, m_pools = [0, 1], m_index = 0, m_active = 0,
        m_minAcceptableIndex = 0, m_pendingConnect = False, m_pendingIndex = 0\<rparr>,
             [ClientConnect 0, ClientDisconnect 1, ListenerOnActive 0])
   \<and> onClose \<lparr>m_retries = 5, m_pools = [0, 1], m_index = 0, m_active = 0,
        m_minAcceptableIndex = 0, m_pendingConnect = False, m_pendingIndex = 0\<rparr> 0 1
     = Some (\<lparr>m_retries = 5, m_pools = [0, 1], m_index = 0, m_active = - 1,
        m_minAcceptableIndex = 0, m_pendingConnect = False, m_pendingIndex = 0\<rparr>,
             [ListenerOnPause])"
  by (simp add: FailoverStrategy_new_2 fail_eval)

text \<open>
  Claim C9. A close with \<open>failures = -1\<close> (an explicit local disconnect) is ignored:
  \<^verbatim>\<open>onClose\<close> returns with every field of the strategy unchanged, and it calls
  neither the listener nor any client.
\<close>

theorem onClose_explicit_disconnect_ignored:
  "onClose s client (- 1) = Some (s, [])"
  by (simp add: onClose_def)

section \<open>DonateStrategy: the claims\<close>

text \<open>
  Claim C4. A job arriving from the donation side, from the nested strategy
  (\<^verbatim>\<open>onJob\<close>) or from the proxy (\<^verbatim>\<open>onJobReceived\<close>), is passed to the listener's
  \<^verbatim>\<open>onJob\<close> if the state is \<open>STATE_ACTIVE\<close>; in every other state (\<open>NEW\<close>,
  \<open>IDLE\<close>, \<open>CONNECT\<close>, \<open>WAIT\<close>) it is dropped and the listener is not called. The
  state of the strategy is unchanged either way.
\<close>

theorem donation_job_forwarding:
  "setJob s client j params =
     (s, if m_state s = STATE_ACTIVE then [ListenerOnJob client j params] else [])
   \<and> onJob s client j params =
     (s, if m_state s = STATE_ACTIVE then [ListenerOnJob client j params] else [])
   \<and> donate_onJobReceived s client j params =
     (s, if m_state s = STATE_ACTIVE then [ListenerOnJob client j params] else [])"
  by (simp add: onJob_def donate_onJobReceived_def setJob_def donate_isActive_def)

text \<open>
  Claim C8. With \<open>proxyDonate = AUTO\<close>, when the proxy client reports a close with
  \<open>failures = 2\<close>, the strategy calls \<^verbatim>\<open>deleteLater()\<close> on the proxy, clears
  \<open>m_proxy\<close> and calls \<^verbatim>\<open>connect()\<close> on the nested strategy, exactly once.
\<close>

theorem proxy_double_failure_fallback:
  assumes "proxyDonate env = PROXY_DONATE_AUTO" and "m_proxy s = Some proxy"
  shows "\<exists>cs. donate_onClose env s proxy 2 = Inr (s\<lparr>m_proxy := None\<rparr>, cs)
           \<and> cs = [ClientDeleteLater proxy, StrategyConnect]
           \<and> count_list cs StrategyConnect = 1"
  using assms by (simp add: donate_onClose_def)

text \<open>
  The operator's client has the \<open>CONNECT\<close> extension: \<^verbatim>\<open>connect()\<close> builds the
  proxy (id \<open>-1\<close>) instead of connecting the nested strategy, and the proxy's close
  with \<open>failures = 2\<close> tears it down and falls back.
\<close>

theorem proxy_double_failure_fallback_witness:
  "donate_connect \<lparr>proxyDonate = PROXY_DONATE_AUTO, network_isActive = True,
        client_ext_connect = True, client_ext_tls = False, client_isTLS = False,
        client_proxy_valid = False, client_pool_host = ''pool.example'',
        client_ip = ''10.0.0.1'', client_port = 3333,
        random = (\<lambda>base lo hi. base), ndebug = True\<rparr>
      \<lparr>m_state = STATE_CONNECT, m_proxy = None, m_now = 0, m_timestamp = 0,
        m_donateTime = 300000, m_idleTime = 5700000, m_tls = False,
        m_algorithm = 0, m_diff = 0, m_height = 0, m_seed = 0\<rparr>
     = (\<lparr>m_state = STATE_CONNECT, m_proxy = Some (- 1), m_now = 0, m_timestamp = 0,
        m_donateTime = 300000, m_idleTime = 5700000, m_tls = False,
        m_algorithm = 0, m_diff = 0, m_height = 0, m_seed = 0\<rparr>,
        [ClientSetPool (- 1) ''10.0.0.1'' 3333 False, ClientSetQuiet (- 1) True,
         ClientConnect (- 1)])
   \<and> donate_onClose \<lparr>proxyDonate = PROXY_DONATE_AUTO, network_isActive = True,
        client_ext_connect = True, client_ext_tls = False, client_isTLS = False,
        client_proxy_valid = False, client_pool_host = ''pool.example'',
        client_ip = ''10.0.0.1'', client_port = 3333,
        random = (\<lambda>base lo hi. base), ndebug = True\<rparr>
      \<lparr>m_state = STATE_CONNECT, m_proxy = Some (- 1), m_now = 0, m_timestamp = 0,
        m_donateTime = 300000, m_idleTime = 5700000, m_tls = False,
        m_algorithm = 0, m_diff = 0, m_height = 0, m_seed = 0\<rparr> (- 1) 2
     = Inr (\<lparr>m_state = STATE_CONNECT, m_proxy = None, m_now = 0, m_timestamp = 0,
        m_donateTime = 300000, m_idleTime = 5700000, m_tls = False,
        m_algorithm = 0, m_diff = 0, m_height = 0, m_seed = 0\<rparr>,
            [ClientDeleteLater (- 1), StrategyConnect])"
  using proxy_double_failure_fallback [of
      "\<lparr>proxyDonate = PROXY_DONATE_AUTO, network_isActive = True,
        client_ext_connect = True, client_ext_tls = False, client_isTLS = False,
        client_proxy_valid = False, client_pool_host = ''pool.example'',
        client_ip = ''10.0.0.1'', client_port = 3333,
        random = (\<lambda>base lo hi. base), ndebug = True\<rparr>"
      "\<lparr>m_state = STATE_CONNECT, m_proxy = Some (- 1), m_now = 0, m_timestamp = 0,
        m_donateTime = 300000, m_idleTime = 5700000, m_tls = False,
        m_algorithm = 0, m_diff = 0, m_height = 0, m_seed = 0\<rparr>" "- 1"]
  by (simp add: donate_connect_def createProxy_def)

text \<open>
  Claim C10. The listener's \<^verbatim>\<open>onPause\<close> is called only on entering \<open>STATE_WAIT\<close>:
  \<^verbatim>\<open>onPause(IStrategy *)\<close>, the notification from the nested strategy, changes
  nothing and calls nothing; \<^verbatim>\<open>setState\<close> pauses the listener exactly when it
  moves into \<open>STATE_WAIT\<close> from another state; and a method of the class pauses the
  listener exactly when it takes the strategy from another state into \<open>STATE_WAIT\<close>.
\<close>

theorem onPause_only_on_entering_wait:
  "onPause s = (s, [])
   \<and> (\<forall>env st s' cs. setState env s st = Inr (s', cs) \<longrightarrow>
        (ListenerOnPause \<in> set cs) = (st = STATE_WAIT \<and> m_state s \<noteq> STATE_WAIT))
   \<and> (\<forall>env e s' cs. dstep env s e = Inr (s', cs) \<longrightarrow>
        (ListenerOnPause \<in> set cs) = (m_state s \<noteq> STATE_WAIT \<and> m_state s' = STATE_WAIT))"
  using setState_onPause dstep_onPause by (simp add: onPause_def)

text \<open>
  The donate timer fires in \<open>STATE_ACTIVE\<close> at time \<open>7\<close>: the strategy enters
  \<open>STATE_WAIT\<close> with the deadline \<open>3007\<close> and pauses the listener. The nested
  strategy's own pause notification does nothing.
\<close>

theorem onPause_only_on_entering_wait_witness:
  "dstep \<lparr>proxyDonate = PROXY_DONATE_AUTO, network_isActive = True,
        client_ext_connect = True, client_ext_tls = False, client_isTLS = False,
        client_proxy_valid = False, client_pool_host = ''pool.example'',
        client_ip = ''10.0.0.1'', client_port = 3333,
        random = (\<lambda>base lo hi. base), ndebug = True\<rparr>
      \<lparr>m_state = STATE_ACTIVE, m_proxy = None, m_now = 7, m_timestamp = 0,
        m_donateTime = 300000, m_idleTime = 5700000, m_tls = False,
        m_algorithm = 0, m_diff = 0, m_height = 0, m_seed = 0\<rparr> DOnTimer
     = Inr (\<lparr>m_state = STATE_WAIT, m_proxy = None, m_now = 7, m_timestamp = 3007,
        m_donateTime = 300000, m_idleTime = 5700000, m_tls = False,
        m_algorithm = 0, m_diff = 0, m_height = 0, m_seed = 0\<rparr>,
            [ListenerOnPause])
   \<and> dstep \<lparr>proxyDonate = PROXY_DONATE_AUTO, network_isActive = True,
        client_ext_connect = True, client_ext_tls = False, client_isTLS = False,
        client_proxy_valid = False, client_pool_host = ''pool.example'',
        client_ip = ''10.0.0.1'', client_port = 3333,
        random = (\<lambda>base lo hi. base), ndebug = True\<rparr>
      \<lparr>m_state = STATE_ACTIVE, m_proxy = None, m_now = 7, m_timestamp = 0,
        m_donateTime = 300000, m_idleTime = 5700000, m_tls = False,
        m_algorithm = 0, m_diff = 0, m_height = 0, m_seed = 0\<rparr> DOnPause
     = Inr (\<lparr>m_state = STATE_ACTIVE, m_proxy = None, m_now = 7, m_timestamp = 0,
        m_donateTime = 300000, m_idleTime = 5700000, m_tls = False,
        m_algorithm = 0, m_diff = 0, m_height = 0, m_seed = 0\<rparr>, [])"
  using onPause_only_on_entering_wait [of
      "\<lparr>m_state = STATE_ACTIVE, m_proxy = None, m_now = 7, m_timestamp = 0,
        m_donateTime = 300000, m_idleTime = 5700000, m_tls = False,
        m_algorithm = 0, m_diff = 0, m_height = 0, m_seed = 0\<rparr>"]
  by (simp add: onTimer_def setState_def donate_isActive_def onPause_def)

section \<open>The Verthash dataset manager: the claims\<close>

text \<open>
  Claim C5. After \<^verbatim>\<open>init(p)\<close> has returned true, a second call \<^verbatim>\<open>init(p)\<close> returns
  true at once: the loader is not called again, whatever the files now are, and the
  manager, hence (data, size, bitmask, path), is unchanged.
\<close>

theorem init_same_path_idempotent:
  assumes "init files s p = (True, s1, cs)"
  shows "init files' s1 p = (True, s1, [])"
  using init_success_state [OF assms] by (simp add: init_def)

theorem init_same_path_idempotent_witness:
  "init (\<lambda>p. if p = ''a.dat'' then Some ([1, 2, 3], 3) else None) Verthash_new ''a.dat''
     = (True,
        \<lparr>m_info = \<lparr>data = Some [1, 2, 3], dataSize = 3, bitmask = 3,
                   fileName = Some ''a.dat''\<rparr>,
        m_initialized = True\<rparr>,
        [InfoInit ''a.dat''])
   \<and> init (\<lambda>p. None)
        \<lparr>m_info = \<lparr>data = Some [1, 2, 3], dataSize = 3, bitmask = 3,
                   fileName = Some ''a.dat''\<rparr>,
        m_initialized = True\<rparr> ''a.dat''
     = (True,
        \<lparr>m_info = \<lparr>data = Some [1, 2, 3], dataSize = 3, bitmask = 3,
                   fileName = Some ''a.dat''\<rparr>,
        m_initialized = True\<rparr>,
        [])"
  using init_same_path_idempotent [of "(\<lambda>p. if p = ''a.dat'' then Some ([1, 2, 3], 3) else None)"
      Verthash_new "''a.dat''"
      "\<lparr>m_info = \<lparr>data = Some [1, 2, 3], dataSize = 3, bitmask = 3,
                   fileName = Some ''a.dat''\<rparr>,
        m_initialized = True\<rparr>"
      "[InfoInit ''a.dat'']" "\<lambda>p. None"]
  by (simp add: init_def verthash_info_init_def Verthash_new_def zero_info_def)

text \<open>
  Claim C6, as amended. After a successful \<^verbatim>\<open>init(p1)\<close>, a call \<^verbatim>\<open>init(p2)\<close> with
  another path frees the region held, clears the structure and then loads \<open>p2\<close>. If
  the load succeeds, the manager holds the new region under the path \<open>p2\<close>, the
  initialised flag is set and the call returns true; if it fails, the manager is reset
  to the empty state and the call returns false. \<^emph>\<open>The exchange is made in separate
  writes\<close>: the manager first becomes the empty structure, with \<open>m_initialized\<close> still
  true, and only then takes the new region or, on failure, the cleared flag.
\<close>

theorem init_other_path_swaps:
  assumes "init files s p1 = (True, s1, cs1)" and "p2 \<noteq> p1"
  shows "init files' s1 p2 =
     (case files' p2 of
        None \<Rightarrow>
          (False, \<lparr>m_info = zero_info, m_initialized = False\<rparr>,
           [InfoFree (m_info s1), InfoInit p2])
      | Some (bytes, bits) \<Rightarrow>
          (True,
           \<lparr>m_info = \<lparr>data = Some bytes, dataSize = length bytes, bitmask = bits,
                       fileName = Some p2\<rparr>,
             m_initialized = True\<rparr>,
           [InfoFree (m_info s1), InfoInit p2]))
   \<and> init_trace files' s1 p2 =
     (case files' p2 of
        None \<Rightarrow>
          [\<lparr>m_info = zero_info, m_initialized = True\<rparr>,
           \<lparr>m_info = zero_info, m_initialized = True\<rparr>,
           \<lparr>m_info = zero_info, m_initialized = True\<rparr>,
           \<lparr>m_info = zero_info, m_initialized = False\<rparr>]
      | Some (bytes, bits) \<Rightarrow>
          [\<lparr>m_info = zero_info, m_initialized = True\<rparr>,
           \<lparr>m_info = \<lparr>data = Some bytes, dataSize = length bytes, bitmask = bits,
                       fileName = Some p2\<rparr>,
             m_initialized = True\<rparr>,
           \<lparr>m_info = \<lparr>data = Some bytes, dataSize = length bytes, bitmask = bits,
                       fileName = Some p2\<rparr>,
             m_initialized = True\<rparr>])"
  using init_success_state [OF assms(1)] assms(2)
  by (cases s1)
    (auto simp: init_def init_trace_def verthash_info_init_def Let_def split: option.splits)

text \<open>
  From \<open>a.dat\<close> to a file \<open>b.dat\<close> that loads, and to one that does not.
\<close>

theorem init_other_path_swaps_witness:
  "init [''b.dat'' \<mapsto> ([4, 5], 1)]
        \<lparr>m_info = \<lparr>data = Some [1, 2, 3], dataSize = 3, bitmask = 3,
                   fileName = Some ''a.dat''\<rparr>,
        m_initialized = True\<rparr> ''b.dat''
     = (True,
        \<lparr>m_info = \<lparr>data = Some [4, 5], dataSize = 2, bitmask = 1,
                   fileName = Some ''b.dat''\<rparr>,
        m_initialized = True\<rparr>,
        [InfoFree \<lparr>data = Some [1, 2, 3], dataSize = 3, bitmask = 3,
                    fileName = Some ''a.dat''\<rparr>,
         InfoInit ''b.dat''])
   \<and> init Map.empty
        \<lparr>m_info = \<lparr>data = Some [1, 2, 3], dataSize = 3, bitmask = 3,
                   fileName = Some ''a.dat''\<rparr>,
        m_initialized = True\<rparr> ''b.dat''
     = (False, Verthash_new,
        [InfoFree \<lparr>data = Some [1, 2, 3], dataSize = 3, bitmask = 3,
                    fileName = Some ''a.dat''\<rparr>,
         InfoInit ''b.dat''])
   \<and> init_trace Map.empty
        \<lparr>m_info = \<lparr>data = Some [1, 2, 3], dataSize = 3, bitmask = 3,
                   fileName = Some ''a.dat''\<rparr>,
        m_initialized = True\<rparr> ''b.dat''
     = [\<lparr>m_info = zero_info, m_initialized = True\<rparr>,
        \<lparr>m_info = zero_info, m_initialized = True\<rparr>,
        \<lparr>m_info = zero_info, m_initialized = True\<rparr>,
        Verthash_new]"
  using init_other_path_swaps [of "[''a.dat'' \<mapsto> ([1, 2, 3], 3)]"
      Verthash_new "''a.dat''"
      "\<lparr>m_info = \<lparr>data = Some [1, 2, 3], dataSize = 3, bitmask = 3,
                   fileName = Some ''a.dat''\<rparr>,
        m_initialized = True\<rparr>"
      "[InfoInit ''a.dat'']" "''b.dat''" "[''b.dat'' \<mapsto> ([4, 5], 1)]"]
    init_other_path_swaps [of "[''a.dat'' \<mapsto> ([1, 2, 3], 3)]"
      Verthash_new "''a.dat''"
      "\<lparr>m_info = \<lparr>data = Some [1, 2, 3], dataSize = 3, bitmask = 3,
                   fileName = Some ''a.dat''\<rparr>,
        m_initialized = True\<rparr>"
      "[InfoInit ''a.dat'']" "''b.dat''" "Map.empty"]
  by (simp add: init_def verthash_info_init_def Verthash_new_def zero_info_def)

text \<open>
  Claim C6 as stated fails on ``atomically''. \<open>a.dat\<close> is loaded; \<^verbatim>\<open>init("b.dat")\<close>
  then takes the manager through a state that is neither the one before the call nor
  the one after it: the structure is all zero (no data, size \<open>0\<close>, no path) while
  \<open>m_initialized\<close> is still true. The accessors take no lock, so a reader can find
  this state: there \<^verbatim>\<open>isValid()\<close> is false and \<^verbatim>\<open>filePath()\<close> is null.
\<close>

theorem init_swap_not_atomic_counterexample:
  "init [''a.dat'' \<mapsto> ([1, 2, 3], 3)] Verthash_new ''a.dat''
     = (True,
        \<lparr>m_info = \<lparr>data = Some [1, 2, 3], dataSize = 3, bitmask = 3,
                     fileName = Some ''a.dat''\<rparr>,
          m_initialized = True\<rparr>,
        [InfoInit ''a.dat''])
   \<and> init_trace [''b.dat'' \<mapsto> ([4, 5], 1)]
        \<lparr>m_info = \<lparr>data = Some [1, 2, 3], dataSize = 3, bitmask = 3,
                     fileName = Some ''a.dat''\<rparr>,
          m_initialized = True\<rparr> ''b.dat''
     = [\<lparr>m_info = \<lparr>data = None, dataSize = 0, bitmask = 0, fileName = None\<rparr>,
          m_initialized = True\<rparr>,
        \<lparr>m_info = \<lparr>data = Some [4, 5], dataSize = 2, bitmask = 1,
                     fileName = Some ''b.dat''\<rparr>,
          m_initialized = True\<rparr>,
        \<lparr>m_info = \<lparr>data = Some [4, 5], dataSize = 2, bitmask = 1,
                     fileName = Some ''b.dat''\<rparr>,
          m_initialized = True\<rparr>]
   \<and> \<not> isValid \<lparr>m_info = \<lparr>data = None, dataSize = 0, bitmask = 0, fileName = None\<rparr>,
                   m_initialized = True\<rparr>
   \<and> filePath \<lparr>m_info = \<lparr>data = None, dataSize = 0, bitmask = 0, fileName = None\<rparr>,
                 m_initialized = True\<rparr> = None"
  by (simp add: init_def init_trace_def verthash_info_init_def Verthash_new_def zero_info_def
      isValid_def filePath_def Let_def)

end
